theory Spec2Isabelle
  imports Main
begin

section \<open>Data model (src/types/index.ts)\<close>

text \<open>
  The string-literal unions of the TypeScript interfaces are datatypes; the interfaces
  are records. Optional fields are options. JavaScript strings are modelled as
  \<open>string\<close>, read as the UTF-8 encoding of the text.
\<close>

datatype Severity = Critical | Serious | Moderate | Minor

datatype WcagLevel = A | AA | AAA

datatype Source = Static | Dynamic

record AccessibilityIssue =
  id' :: string
  rule :: string
  severity :: Severity
  wcagLevel :: WcagLevel
  wcagCriterion :: string
  description :: string
  helpText :: string
  wcagUrl :: string
  element :: "string option"
  selector :: "string option"
  file' :: "string option"
  line :: "nat option"
  column :: "nat option"
  source :: Source

record Summary =
  total :: nat
  critical :: nat
  serious :: nat
  moderate :: nat
  minor :: nat

record AnalysisResult =
  issues :: "AccessibilityIssue list"
  summary :: Summary
  analysisType :: Source
  timestamp :: string
  projectPath :: "string option"
  url :: "string option"

section \<open>Summaries\<close>

text \<open>
  \<open>StaticAnalyzer.calculateSummary\<close> and \<open>DynamicAnalyzer.calculateSummary\<close>: the
  summary object starts with \<open>total = issues.length\<close> and zero counters; the loop
  body is one \<open>switch\<close> on the severity that increments one counter.
\<close>

definition summary_switch :: "Summary \<Rightarrow> AccessibilityIssue \<Rightarrow> Summary" where
  "summary_switch s issue =
     (case severity issue of
        Critical \<Rightarrow> s\<lparr>critical := critical s + 1\<rparr>
      | Serious \<Rightarrow> s\<lparr>serious := serious s + 1\<rparr>
      | Moderate \<Rightarrow> s\<lparr>moderate := moderate s + 1\<rparr>
      | Minor \<Rightarrow> s\<lparr>minor := minor s + 1\<rparr>)"

definition StaticAnalyzer_calculateSummary :: "AccessibilityIssue list \<Rightarrow> Summary" where
  "StaticAnalyzer_calculateSummary iss =
     foldl summary_switch
       \<lparr>total = length iss, critical = 0, serious = 0, moderate = 0, minor = 0\<rparr> iss"

definition DynamicAnalyzer_calculateSummary :: "AccessibilityIssue list \<Rightarrow> Summary" where
  "DynamicAnalyzer_calculateSummary iss =
     foldl summary_switch
       \<lparr>total = length iss, critical = 0, serious = 0, moderate = 0, minor = 0\<rparr> iss"

text \<open>\<open>A11yRobotServer.calculateSummary\<close>: one \<open>filter(...).length\<close> per severity.\<close>

definition A11yRobotServer_calculateSummary :: "AccessibilityIssue list \<Rightarrow> Summary" where
  "A11yRobotServer_calculateSummary iss =
     \<lparr>total = length iss,
      critical = length (filter (\<lambda>i. severity i = Critical) iss),
      serious = length (filter (\<lambda>i. severity i = Serious) iss),
      moderate = length (filter (\<lambda>i. severity i = Moderate) iss),
      minor = length (filter (\<lambda>i. severity i = Minor) iss)\<rparr>"

text \<open>
  \<open>StaticAnalyzer.analyze\<close>, from the point where the files have been found and read:
  \<open>fileIssues\<close> holds the result of \<open>analyzeFile\<close> for each file, in order, and the
  loop pushes each of them onto \<open>allIssues\<close>. The clock is a parameter.
\<close>

definition StaticAnalyzer_analyze ::
  "string \<Rightarrow> string \<Rightarrow> AccessibilityIssue list list \<Rightarrow> AnalysisResult" where
  "StaticAnalyzer_analyze path now fileIssues =
     (let allIssues = concat fileIssues in
      \<lparr>issues = allIssues,
       summary = StaticAnalyzer_calculateSummary allIssues,
       analysisType = Static,
       timestamp = now,
       projectPath = Some path,
       url = None\<rparr>)"

text \<open>
  \<open>DynamicAnalyzer.analyze\<close>, from the point where the pages have been audited:
  \<open>mainPageIssues\<close> are the issues of the primary page, \<open>pageIssues\<close> those of each
  secondary page that did not fail (a failing secondary page pushes nothing).
\<close>

definition DynamicAnalyzer_analyze ::
  "string \<Rightarrow> string \<Rightarrow> AccessibilityIssue list \<Rightarrow> AccessibilityIssue list list
     \<Rightarrow> AnalysisResult" where
  "DynamicAnalyzer_analyze u now mainPageIssues pageIssues =
     (let allIssues = mainPageIssues @ concat pageIssues in
      \<lparr>issues = allIssues,
       summary = DynamicAnalyzer_calculateSummary allIssues,
       analysisType = Dynamic,
       timestamp = now,
       projectPath = None,
       url = Some u\<rparr>)"

section \<open>Aggregation (src/server/a11y-robot-server.ts)\<close>

datatype error = Error string

text \<open>
  \<open>Array.prototype.sort\<close> with a comparator. The engines field of package.json asks
  for Node 18 or later, where the language standard requires the sort to be stable. It
  is modelled as an insertion sort that places an element before the first element it
  does not compare greater than.
\<close>

fun sort_insert :: "('a \<Rightarrow> 'a \<Rightarrow> int) \<Rightarrow> 'a \<Rightarrow> 'a list \<Rightarrow> 'a list" where
  "sort_insert cmp x [] = [x]"
| "sort_insert cmp x (y # ys) =
     (if cmp x y \<le> 0 then x # y # ys else y # sort_insert cmp x ys)"

definition Array_sort :: "('a \<Rightarrow> 'a \<Rightarrow> int) \<Rightarrow> 'a list \<Rightarrow> 'a list" where
  "Array_sort cmp xs = foldr (sort_insert cmp) xs []"

text \<open>The table \<open>severityOrder\<close> and the comparator given to \<open>sort\<close>.\<close>

definition severityOrder :: "Severity \<Rightarrow> int" where
  "severityOrder s = (case s of Critical \<Rightarrow> 0 | Serious \<Rightarrow> 1 | Moderate \<Rightarrow> 2 | Minor \<Rightarrow> 3)"

definition compareSeverity :: "AccessibilityIssue \<Rightarrow> AccessibilityIssue \<Rightarrow> int" where
  "compareSeverity a b = severityOrder (severity a) - severityOrder (severity b)"

text \<open>
  \<open>A11yRobotServer.generateAccessibilityReport\<close>, up to the value \<open>combinedResult\<close>
  that it hands to the report generator. \<open>analysisResults\<close> is the list accumulated by
  the earlier analysis calls; the guard on an empty list throws, and the \<open>catch\<close>
  rethrows with the prefix shown. The clock is a parameter.
\<close>

definition generateAccessibilityReport ::
  "string \<Rightarrow> AnalysisResult list \<Rightarrow> error + AnalysisResult" where
  "generateAccessibilityReport now analysisResults =
     (if length analysisResults = 0 then
        Inl (Error (''Report generation failed: '' @
          ''No analysis results available. Please run static or dynamic analysis first.''))
      else
        (let allIssues = Array_sort compareSeverity (concat (map issues analysisResults)) in
         Inr \<lparr>issues = allIssues,
              summary = A11yRobotServer_calculateSummary allIssues,
              analysisType = Static,
              timestamp = now,
              projectPath = None,
              url = None\<rparr>))"

section \<open>Dynamic result normalizer (src/analyzers/dynamic-analyzer.ts)\<close>

text \<open>\<open>DynamicAnalyzer.mapAxeSeverity\<close>: a \<open>switch\<close> with a default branch.\<close>

definition mapAxeSeverity :: "string \<Rightarrow> Severity" where
  "mapAxeSeverity impact =
     (if impact = ''critical'' then Critical
      else if impact = ''serious'' then Serious
      else if impact = ''moderate'' then Moderate
      else if impact = ''minor'' then Minor
      else Minor)"

definition startsWith :: "string \<Rightarrow> string \<Rightarrow> bool" where
  "startsWith s p = (take (length p) s = p)"

definition isDigit :: "char \<Rightarrow> bool" where
  "isDigit c = (c \<in> set ''0123456789'')"

text \<open>
  The test \<open>tag.match(/^\d+\.\d+\.\d+$/)\<close>: three non-empty runs of decimal digits
  separated by two dots, and nothing else.
\<close>

definition matchCriterion :: "string \<Rightarrow> bool" where
  "matchCriterion tag =
     (let d1 = takeWhile isDigit tag; r1 = dropWhile isDigit tag in
      d1 \<noteq> [] \<and>
      (case r1 of
         [] \<Rightarrow> False
       | c1 # t1 \<Rightarrow>
           c1 = CHR ''.'' \<and>
           (let d2 = takeWhile isDigit t1; r2 = dropWhile isDigit t1 in
            d2 \<noteq> [] \<and>
            (case r2 of
               [] \<Rightarrow> False
             | c2 # t2 \<Rightarrow> c2 = CHR ''.'' \<and> t2 \<noteq> [] \<and> list_all isDigit t2))))"

record WcagInfo =
  level :: WcagLevel
  criterion :: string

text \<open>
  \<open>DynamicAnalyzer.extractWcagInfo\<close>. \<open>find\<close> gives the first tag that starts with
  \<open>wcag\<close>; the test \<open>if (wcagTag)\<close> holds for a string that is not empty;
  \<open>split('')\<close> gives the characters of the tag and the filter keeps the letters
  \<open>a\<close>; \<open>||\<close> replaces a missing or empty criterion by \<open>Unknown\<close>.
\<close>

definition extractWcagInfo :: "string list \<Rightarrow> WcagInfo" where
  "extractWcagInfo tags =
     (case find (\<lambda>tag. startsWith tag ''wcag'') tags of
        None \<Rightarrow> \<lparr>level = AA, criterion = ''Unknown''\<rparr>
      | Some wcagTag \<Rightarrow>
          if wcagTag = [] then \<lparr>level = AA, criterion = ''Unknown''\<rparr>
          else
            (let parts = wcagTag;
                 lvl = length (filter (\<lambda>p. p = CHR ''a'') parts);
                 crit = (case find matchCriterion tags of
                           None \<Rightarrow> ''Unknown''
                         | Some t \<Rightarrow> if t = [] then ''Unknown'' else t)
             in \<lparr>level = (if lvl = 1 then A else if lvl = 2 then AA else AAA),
                 criterion = crit\<rparr>))"

text \<open>Decimal rendering of an index, as a template literal does for a number.\<close>

fun toString :: "nat \<Rightarrow> string" where
  "toString n =
     (if n < 10 then [''0123456789'' ! n]
      else toString (n div 10) @ [''0123456789'' ! (n mod 10)])"

declare toString.simps [simp del]

text \<open>The raw records of the auditor, with the fields that the normalizer reads.\<close>

record AxeNode =
  html :: string
  target :: "string list"

record AxeViolation =
  vid :: string
  impact :: string
  tags :: "string list"
  vdescription :: string
  help' :: string
  helpUrl :: string
  nodes :: "AxeNode list"

fun join :: "string \<Rightarrow> string list \<Rightarrow> string" where
  "join sep [] = []"
| "join sep [x] = x"
| "join sep (x # y # ys) = x @ sep @ join sep (y # ys)"

text \<open>
  \<open>DynamicAnalyzer.convertAxeResults\<close>: the outer \<open>forEach\<close> runs over the
  violations with their index, the inner one over the nodes of a violation with
  theirs. \<open>None\<close> stands for a result without a \<open>violations\<close> field.
\<close>

definition convertNode ::
  "AxeViolation \<Rightarrow> nat \<Rightarrow> Severity \<Rightarrow> WcagInfo \<Rightarrow> nat \<Rightarrow> AxeNode \<Rightarrow> AccessibilityIssue" where
  "convertNode violation index sev wcagInfo nodeIndex node =
     \<lparr>id' = ''axe-'' @ vid violation @ ''-'' @ toString index @ ''-'' @ toString nodeIndex,
      rule = vid violation,
      severity = sev,
      wcagLevel = level wcagInfo,
      wcagCriterion = criterion wcagInfo,
      description = vdescription violation,
      helpText = help' violation,
      wcagUrl = helpUrl violation,
      element = Some (html node),
      selector = Some (join '', '' (target node)),
      file' = None,
      line = None,
      column = None,
      source = Dynamic\<rparr>"

definition convertViolation :: "nat \<Rightarrow> AxeViolation \<Rightarrow> AccessibilityIssue list" where
  "convertViolation index violation =
     (let sev = mapAxeSeverity (impact violation);
          wcagInfo = extractWcagInfo (tags violation)
      in map (\<lambda>(nodeIndex, node). convertNode violation index sev wcagInfo nodeIndex node)
           (enumerate 0 (nodes violation)))"

definition convertAxeResults :: "AxeViolation list option \<Rightarrow> AccessibilityIssue list" where
  "convertAxeResults violations =
     (case violations of
        None \<Rightarrow> []
      | Some vs \<Rightarrow> concat (map (\<lambda>(index, violation). convertViolation index violation)
                            (enumerate 0 vs)))"

section \<open>Static scanner: markup (src/analyzers/static-analyzer.ts)\<close>

text \<open>
  The markup parser and selector engine are a library. The model starts from the parsed
  document: its elements in document order, each with its tag name (lower case, as the
  parser delivers it) and its attributes. A query by tag name keeps the elements with
  one of the names, in document order.
\<close>

record Element =
  tagName :: string
  attribs :: "(string \<times> string) list"

definition attr :: "Element \<Rightarrow> string \<Rightarrow> string option" where
  "attr e name = map_of (attribs e) name"

definition select_tags :: "string list \<Rightarrow> Element list \<Rightarrow> Element list" where
  "select_tags names doc = filter (\<lambda>e. tagName e \<in> set names) doc"

text \<open>
  \<open>toLowerCase\<close>, on the letters of ASCII: it is applied to tag names and to the
  values of \<open>type\<close> that are compared with ASCII words.
\<close>

definition lowerChar :: "char \<Rightarrow> char" where
  "lowerChar c =
     (case map_of (zip ''ABCDEFGHIJKLMNOPQRSTUVWXYZ'' ''abcdefghijklmnopqrstuvwxyz'') c of
        Some l \<Rightarrow> l
      | None \<Rightarrow> c)"

definition toLowerCase :: "string \<Rightarrow> string" where
  "toLowerCase s = map lowerChar s"

text \<open>
  The selector of the form controls: an \<open>input\<close> whose \<open>type\<close> is one of six values
  (the selector engine compares the values of \<open>type\<close> without regard to case), a
  \<open>textarea\<close> or a \<open>select\<close>.
\<close>

definition typeIs :: "Element \<Rightarrow> string \<Rightarrow> bool" where
  "typeIs e v =
     (case attr e ''type'' of
        None \<Rightarrow> False
      | Some a \<Rightarrow> length a = length v \<and> toLowerCase a = v)"

definition isFormControl :: "Element \<Rightarrow> bool" where
  "isFormControl e =
     ((tagName e = ''input'' \<and>
       list_ex (typeIs e) [''text'', ''email'', ''password'', ''number'', ''tel'', ''url''])
      \<or> tagName e = ''textarea'' \<or> tagName e = ''select'')"

definition labelsFor :: "string \<Rightarrow> Element list \<Rightarrow> Element list" where
  "labelsFor i doc = filter (\<lambda>e. tagName e = ''label'' \<and> attr e ''for'' = Some i) doc"

text \<open>
  The query \<open>$(`label[for="${id}"]`).length\<close>. The source writes the id between the
  double quotes of the selector as it is, and the selector parser of the library reads
  the result:
  \<^item> an id without a double quote and without a backslash is the quoted value, and the
    query counts the labels whose \<open>for\<close> is exactly the id;
  \<^item> a double quote in the id ends the quoted value early; when the id has no backslash
    and no closing bracket, the parser does not find the bracket it expects next and
    throws;
  \<^item> for every other id (a backslash starts an escape, a bracket may close the
    selector and begin another) the answer of the library is the parameter \<open>engine\<close>:
    a count or a thrown error.
\<close>

definition labelQuery ::
  "(string \<Rightarrow> error + nat) \<Rightarrow> Element list \<Rightarrow> string \<Rightarrow> error + nat" where
  "labelQuery engine doc i =
     (if CHR 0x22 \<notin> set i \<and> CHR 0x5C \<notin> set i then Inr (length (labelsFor i doc))
      else if CHR 0x5C \<notin> set i \<and> CHR '']'' \<notin> set i
      then Inl (Error ''Attribute selector didn't terminate'')
      else engine i)"

text \<open>A string, when present and not empty, is what a condition takes as true.\<close>

definition truthy :: "string option \<Rightarrow> bool" where
  "truthy v = (case v of None \<Rightarrow> False | Some s \<Rightarrow> s \<noteq> [])"

text \<open>The three issue literals of \<open>analyzeHtmlTemplate\<close>.\<close>

definition imgIssue :: "string \<Rightarrow> nat \<Rightarrow> Element \<Rightarrow> AccessibilityIssue" where
  \<open>imgIssue filePath index img =
     \<lparr>id' = ''img-alt-'' @ toString index,
      rule = ''Images must have alt attributes'',
      severity = Serious,
      wcagLevel = A,
      wcagCriterion = ''1.1.1'',
      description = ''Image elements must have an alt attribute to provide alternative text for screen readers.'',
      helpText = ''Add an alt attribute that describes the image content or use alt="" for decorative images.'',
      wcagUrl = ''https://www.w3.org/TR/WCAG20/#text-equiv-all'',
      element = Some (if truthy (attr img ''src'')
                      then ''<img src="'' @ the (attr img ''src'') @ ''">''
                      else ''<img>''),
      selector = Some ''img'',
      file' = Some filePath,
      line = None,
      column = None,
      source = Static\<rparr>\<close>

definition inputIssue :: "string \<Rightarrow> nat \<Rightarrow> string \<Rightarrow> AccessibilityIssue" where
  \<open>inputIssue filePath index type =
     \<lparr>id' = ''input-label-'' @ toString index,
      rule = ''Form inputs must have labels'',
      severity = Serious,
      wcagLevel = A,
      wcagCriterion = ''1.3.1'',
      description = ''Form input elements must have associated labels to be accessible to screen readers.'',
      helpText = ''Add a <label> element with a "for" attribute matching the input's id, or use aria-label or aria-labelledby.'',
      wcagUrl = ''https://www.w3.org/TR/WCAG20/#content-structure-separation-programmatic'',
      element = Some (''<'' @ type @ ''>''),
      selector = Some type,
      file' = Some filePath,
      line = None,
      column = None,
      source = Static\<rparr>\<close>

definition headingIssue :: "string \<Rightarrow> nat \<Rightarrow> string \<Rightarrow> nat \<Rightarrow> nat \<Rightarrow> AccessibilityIssue" where
  "headingIssue filePath index tag previousLevel currentLevel =
     \<lparr>id' = ''heading-hierarchy-'' @ toString index,
      rule = ''Heading levels should not be skipped'',
      severity = Moderate,
      wcagLevel = AA,
      wcagCriterion = ''1.3.1'',
      description = ''Heading levels should be used in sequential order without skipping levels.'',
      helpText = ''Use h'' @ toString (previousLevel + 1) @ '' instead of h'' @
                 toString currentLevel @ '' to maintain proper heading hierarchy.'',
      wcagUrl = ''https://www.w3.org/TR/WCAG20/#content-structure-separation-programmatic'',
      element = Some (''<'' @ tag @ ''>''),
      selector = Some tag,
      file' = Some filePath,
      line = None,
      column = None,
      source = Static\<rparr>"

text \<open>The image check: \<open>each\<close> passes the position of the image among the images.\<close>

definition imgs :: "Element list \<Rightarrow> Element list" where
  "imgs doc = select_tags [''img''] doc"

definition imageCheck :: "string \<Rightarrow> Element list \<Rightarrow> AccessibilityIssue list" where
  "imageCheck filePath doc =
     concat (map (\<lambda>(index, img).
                    if attr img ''alt'' = None then [imgIssue filePath index img] else [])
                 (enumerate 0 (imgs doc)))"

text \<open>The form-control check.\<close>

definition controlType :: "Element \<Rightarrow> string" where
  "controlType input =
     (if truthy (attr input ''type'') then the (attr input ''type'')
      else if toLowerCase (tagName input) \<noteq> [] then toLowerCase (tagName input)
      else ''input'')"

text \<open>
  \<open>hasLabel\<close> is computed before the condition that reads it, so the query runs for
  every control with an id, and a throw of the query leaves the callback.
\<close>

definition hasLabel ::
  "(string \<Rightarrow> error + nat) \<Rightarrow> Element list \<Rightarrow> Element \<Rightarrow> error + bool" where
  "hasLabel engine doc input =
     (if truthy (attr input ''id'') then
        (case labelQuery engine doc (the (attr input ''id'')) of
           Inl e \<Rightarrow> Inl e
         | Inr n \<Rightarrow> Inr (n > 0))
      else Inr False)"

text \<open>
  The loop of \<open>each\<close> over the selected controls, with the position of each among
  them. A throw in the callback ends the loop and is the result.
\<close>

fun inputLoop ::
  "(string \<Rightarrow> error + nat) \<Rightarrow> string \<Rightarrow> Element list \<Rightarrow> nat \<Rightarrow> Element list
     \<Rightarrow> error + AccessibilityIssue list" where
  "inputLoop engine filePath doc index [] = Inr []"
| "inputLoop engine filePath doc index (input # rest) =
     (case hasLabel engine doc input of
        Inl e \<Rightarrow> Inl e
      | Inr labelled \<Rightarrow>
          (case inputLoop engine filePath doc (index + 1) rest of
             Inl e \<Rightarrow> Inl e
           | Inr later \<Rightarrow>
               Inr ((if \<not> labelled \<and> \<not> truthy (attr input ''aria-label'')
                        \<and> \<not> truthy (attr input ''aria-labelledby'')
                     then [inputIssue filePath index (controlType input)] else [])
                    @ later)))"

definition inputCheck ::
  "(string \<Rightarrow> error + nat) \<Rightarrow> string \<Rightarrow> Element list \<Rightarrow> error + AccessibilityIssue list" where
  "inputCheck engine filePath doc = inputLoop engine filePath doc 0 (filter isFormControl doc)"

text \<open>
  The heading check. \<open>charAt\<close> gives the empty string out of range; \<open>parseInt\<close> of
  one decimal digit is its value and of any other string of at most one character is
  NaN, here \<open>None\<close> (\<open>charAt\<close> gives no longer string). A comparison with NaN is
  false, and NaN + 1 is NaN.
\<close>

definition charAt :: "string \<Rightarrow> nat \<Rightarrow> string" where
  "charAt s i = (if i < length s then [s ! i] else [])"

definition parseInt :: "string \<Rightarrow> nat option" where
  "parseInt s =
     (case s of
        [c] \<Rightarrow> map_of (zip ''0123456789'' [0, 1, 2, 3, 4, 5, 6, 7, 8, 9]) c
      | _ \<Rightarrow> None)"

fun headingLoop ::
  "string \<Rightarrow> nat option \<Rightarrow> nat \<Rightarrow> Element list \<Rightarrow> AccessibilityIssue list" where
  "headingLoop filePath previousLevel index [] = []"
| "headingLoop filePath previousLevel index (e # es) =
     (let tag = toLowerCase (tagName e);
          currentLevel = parseInt (charAt tag 1)
      in (case (currentLevel, previousLevel) of
            (Some c, Some p) \<Rightarrow> if c > p + 1 then [headingIssue filePath index tag p c] else []
          | _ \<Rightarrow> [])
         @ headingLoop filePath currentLevel (index + 1) es)"

definition headings :: "Element list \<Rightarrow> Element list" where
  "headings doc = select_tags [''h1'', ''h2'', ''h3'', ''h4'', ''h5'', ''h6''] doc"

definition headingCheck :: "string \<Rightarrow> Element list \<Rightarrow> AccessibilityIssue list" where
  "headingCheck filePath doc = headingLoop filePath (Some 0) 0 (headings doc)"

text \<open>
  The level that the loop computes for a heading, as a number: the digit of its tag
  name. (NaN, which no selected heading gives, is read as 0.)
\<close>

definition headingLevel :: "Element \<Rightarrow> nat" where
  "headingLevel e =
     (case parseInt (charAt (toLowerCase (tagName e)) 1) of Some l \<Rightarrow> l | None \<Rightarrow> 0)"

text \<open>
  \<open>StaticAnalyzer.analyzeHtmlTemplate\<close>: the three checks push onto one list in this
  order. The image check and the heading loop cannot throw. A throw in the control
  check leaves the function: the image issues pushed before it are lost with the list,
  and the heading loop is not reached.
\<close>

definition analyzeHtmlTemplate ::
  "(string \<Rightarrow> error + nat) \<Rightarrow> Element list \<Rightarrow> string \<Rightarrow> error + AccessibilityIssue list" where
  "analyzeHtmlTemplate engine doc filePath =
     (case inputCheck engine filePath doc of
        Inl e \<Rightarrow> Inl e
      | Inr inputIssues \<Rightarrow>
          Inr (imageCheck filePath doc @ inputIssues @ headingCheck filePath doc))"

section \<open>Static scanner: stylesheets\<close>

text \<open>\<open>String.prototype.includes\<close>.\<close>

fun includes' :: "string \<Rightarrow> string \<Rightarrow> bool" where
  "includes' [] p = (p = [])"
| "includes' (c # cs) p = (startsWith (c # cs) p \<or> includes' cs p)"

text \<open>
  The class \<open>\s\<close> of the regular expression, on UTF-8 text: the length in bytes of a
  white-space character at the head of the string, or 0 when there is none.
\<close>

definition spaceLen :: "string \<Rightarrow> nat" where
  "spaceLen s =
     (let b = map (of_char :: char \<Rightarrow> nat) (take 3 s) in
      if take 1 b \<in> set [[9], [10], [11], [12], [13], [32]] then 1
      else if take 2 b = [0xC2, 0xA0] then 2
      else if b = [0xE1, 0x9A, 0x80] then 3
      else if take 2 b = [0xE2, 0x80] \<and> length b = 3 \<and>
              b ! 2 \<in> set [0x80, 0x81, 0x82, 0x83, 0x84, 0x85, 0x86, 0x87, 0x88, 0x89,
                             0x8A, 0xA8, 0xA9, 0xAF] then 3
      else if b \<in> set [[0xE2, 0x81, 0x9F], [0xE3, 0x80, 0x80], [0xEF, 0xBB, 0xBF]] then 3
      else 0)"

function skipSpaces :: "string \<Rightarrow> string" where
  "skipSpaces s = (if spaceLen s = 0 then s else skipSpaces (drop (spaceLen s) s))"
  by pat_completeness auto
termination
proof (relation "measure length")
  show "wf (measure length)" by simp
next
  fix s :: string
  assume "spaceLen s \<noteq> 0"
  moreover from this have "s \<noteq> []" by (auto simp: spaceLen_def)
  ultimately show "(drop (spaceLen s) s, s) \<in> measure length" by simp
qed

declare skipSpaces.simps [simp del]

text \<open>
  \<open>/outline\s*:\s*none/\<close> tried at the head of the string: what follows the match, or
  \<open>None\<close>. The two starred classes cannot give back what they took, since neither a
  colon nor the letter n is white space.
\<close>

definition matchOutlineNone :: "string \<Rightarrow> string option" where
  "matchOutlineNone s =
     (if startsWith s ''outline'' then
        (case skipSpaces (drop 7 s) of
           [] \<Rightarrow> None
         | c # r \<Rightarrow>
             if c = CHR '':'' \<and> startsWith (skipSpaces r) ''none''
             then Some (drop 4 (skipSpaces r)) else None)
      else None)"

text \<open>
  \<open>content.match(/outline\s*:\s*none/g)\<close>: the matches from left to right, each
  search resuming where the last match ended; \<open>null\<close> when there is none. The
  counter \<open>skip\<close> is the number of characters of the last match still to pass.
\<close>

fun scanOutlineNone :: "nat \<Rightarrow> string \<Rightarrow> string list" where
  "scanOutlineNone skip [] = []"
| "scanOutlineNone (Suc skip) (c # cs) = scanOutlineNone skip cs"
| "scanOutlineNone 0 (c # cs) =
     (case matchOutlineNone (c # cs) of
        None \<Rightarrow> scanOutlineNone 0 cs
      | Some rest \<Rightarrow>
          take (length (c # cs) - length rest) (c # cs)
            # scanOutlineNone (length cs - length rest) cs)"

definition outlineNoneMatches :: "string \<Rightarrow> string list option" where
  "outlineNoneMatches content =
     (case scanOutlineNone 0 content of [] \<Rightarrow> None | m # ms \<Rightarrow> Some (m # ms))"

definition focusSelectors :: "string list" where
  "focusSelectors = ['':focus'', '':focus-visible'', '':focus-within'']"

definition hasFocusStyles :: "string \<Rightarrow> bool" where
  "hasFocusStyles content = list_ex (\<lambda>selector. includes' content selector) focusSelectors"

definition outlineIssue :: "string \<Rightarrow> AccessibilityIssue" where
  "outlineIssue filePath =
     \<lparr>id' = ''outline-none-focus'',
      rule = ''Do not remove focus indicators without replacement'',
      severity = Serious,
      wcagLevel = AA,
      wcagCriterion = ''2.4.7'',
      description = ''Removing focus indicators without providing alternative focus styles makes it difficult for keyboard users to navigate.'',
      helpText = ''If you remove the default outline, provide alternative focus styles using :focus or :focus-visible.'',
      wcagUrl = ''https://www.w3.org/TR/WCAG20/#navigation-mechanisms-focus-visible'',
      element = Some ''outline: none'',
      selector = None,
      file' = Some filePath,
      line = None,
      column = None,
      source = Static\<rparr>"

text \<open>\<open>StaticAnalyzer.analyzeCssFile\<close>.\<close>

definition analyzeCssFile :: "string \<Rightarrow> string \<Rightarrow> AccessibilityIssue list" where
  "analyzeCssFile content filePath =
     (if \<not> hasFocusStyles content \<and> includes' content ''outline'' then
        (case outlineNoneMatches content of
           None \<Rightarrow> []
         | Some ms \<Rightarrow> [outlineIssue filePath])
      else [])"

section \<open>Sample inputs\<close>

definition sampleIssue :: "string \<Rightarrow> Severity \<Rightarrow> Source \<Rightarrow> AccessibilityIssue" where
  "sampleIssue name sev src =
     \<lparr>id' = name, rule = ''color-contrast'', severity = sev, wcagLevel = AA,
      wcagCriterion = ''Unknown'', description = ''d'', helpText = ''h'', wcagUrl = ''u'',
      element = None, selector = None, file' = None, line = None, column = None,
      source = src\<rparr>"

definition sampleResults :: "AnalysisResult list" where
  "sampleResults =
     [StaticAnalyzer_analyze ''/app'' ''t0''
        [[sampleIssue ''a'' Minor Static, sampleIssue ''b'' Serious Static],
         [sampleIssue ''c'' Minor Static]],
      DynamicAnalyzer_analyze ''http://localhost'' ''t1''
        [sampleIssue ''d'' Critical Dynamic, sampleIssue ''e'' Serious Dynamic]
        [[sampleIssue ''f'' Minor Dynamic]]]"

definition sampleReport :: AnalysisResult where
  "sampleReport =
     \<lparr>issues = [sampleIssue ''d'' Critical Dynamic, sampleIssue ''b'' Serious Static,
                sampleIssue ''e'' Serious Dynamic, sampleIssue ''a'' Minor Static,
                sampleIssue ''c'' Minor Static, sampleIssue ''f'' Minor Dynamic],
      summary = \<lparr>total = 6, critical = 1, serious = 2, moderate = 0, minor = 3\<rparr>,
      analysisType = Static, timestamp = ''t2'', projectPath = None, url = None\<rparr>"

text \<open>An engine that rejects every selector left to it.\<close>

definition sampleEngine :: "string \<Rightarrow> error + nat" where
  "sampleEngine i = Inl (Error ''Unmatched selector'')"

definition sampleDoc :: "Element list" where
  "sampleDoc =
     [\<lparr>tagName = ''h2'', attribs = []\<rparr>,
      \<lparr>tagName = ''img'', attribs = [(''src'', ''logo.png'')]\<rparr>,
      \<lparr>tagName = ''h4'', attribs = []\<rparr>,
      \<lparr>tagName = ''label'', attribs = [(''for'', ''q'')]\<rparr>,
      \<lparr>tagName = ''input'', attribs = [(''type'', ''text''), (''id'', ''q'')]\<rparr>,
      \<lparr>tagName = ''img'', attribs = [(''src'', ''rule.png''), (''alt'', '''')]\<rparr>,
      \<lparr>tagName = ''h5'', attribs = [(''class'', ''sub'')]\<rparr>,
      \<lparr>tagName = ''h3'', attribs = []\<rparr>]"

text \<open>A control whose id holds a double quote, as in \<open>id='a"b'\<close>.\<close>

definition quotedIdControl :: Element where
  "quotedIdControl =
     \<lparr>tagName = ''input'',
      attribs = [(''type'', ''text''), (''id'', [CHR ''a'', CHR 0x22, CHR ''b''])]\<rparr>"

definition docImageThenQuotedId :: "Element list" where
  "docImageThenQuotedId =
     [\<lparr>tagName = ''img'', attribs = [(''src'', ''logo.png'')]\<rparr>, quotedIdControl]"

definition doc124QuotedId :: "Element list" where
  "doc124QuotedId =
     [\<lparr>tagName = ''h1'', attribs = []\<rparr>, quotedIdControl,
      \<lparr>tagName = ''h2'', attribs = []\<rparr>, \<lparr>tagName = ''h4'', attribs = []\<rparr>]"

section \<open>Auxiliary facts\<close>

subsection \<open>Decimal rendering is injective\<close>

lemma toString_nonempty: "toString n \<noteq> []" "[] \<noteq> toString n"
  by (subst toString.simps, simp)+

lemma digit_nth_eq: "i < 10 \<Longrightarrow> j < 10 \<Longrightarrow> (''0123456789'' ! i = ''0123456789'' ! j) = (i = j)"
  by (rule nth_eq_iff_index_eq) simp_all

lemma toString_inj: "toString n = toString m \<Longrightarrow> n = m"
proof (induction n arbitrary: m rule: toString.induct)
  case (1 n)
  show ?case
  proof (cases "n < 10")
    case small_n: True
    show ?thesis
    proof (cases "m < 10")
      case True
      with small_n "1.prems" show ?thesis
        by (simp add: toString.simps [of n] toString.simps [of m] digit_nth_eq)
    next
      case False
      with small_n "1.prems" show ?thesis
        by (simp add: toString.simps [of n] toString.simps [of m] toString_nonempty)
    qed
  next
    case big_n: False
    show ?thesis
    proof (cases "m < 10")
      case True
      with big_n "1.prems" show ?thesis
        by (simp add: toString.simps [of n] toString.simps [of m] toString_nonempty)
    next
      case False
      with big_n "1.prems" have hd: "toString (n div 10) = toString (m div 10)"
        and tl: "''0123456789'' ! (n mod 10) = ''0123456789'' ! (m mod 10)"
        by (simp_all add: toString.simps [of n] toString.simps [of m])
      from hd big_n have "n div 10 = m div 10" by (rule "1.IH" [rotated])
      moreover from tl have "n mod 10 = m mod 10" by (simp add: digit_nth_eq)
      ultimately show ?thesis by (metis div_mult_mod_eq)
    qed
  qed
qed

lemma toString_eq_iff [simp]: "(toString n = toString m) = (n = m)"
  using toString_inj by blast

subsection \<open>Counting by severity\<close>

lemma foldl_summary_switch:
  "foldl summary_switch s xs =
     \<lparr>total = total s,
      critical = critical s + length (filter (\<lambda>i. severity i = Critical) xs),
      serious = serious s + length (filter (\<lambda>i. severity i = Serious) xs),
      moderate = moderate s + length (filter (\<lambda>i. severity i = Moderate) xs),
      minor = minor s + length (filter (\<lambda>i. severity i = Minor) xs)\<rparr>"
  by (induction xs arbitrary: s) (simp_all add: summary_switch_def split: Severity.splits)

lemma severity_partition:
  "length (filter (\<lambda>i. severity i = Critical) xs) + length (filter (\<lambda>i. severity i = Serious) xs)
   + length (filter (\<lambda>i. severity i = Moderate) xs) + length (filter (\<lambda>i. severity i = Minor) xs)
   = length xs"
proof (induction xs)
  case Nil
  show ?case by simp
next
  case (Cons x xs)
  then show ?case by (cases "severity x") simp_all
qed

lemma loop_summary_eq_filter_summary:
  "StaticAnalyzer_calculateSummary xs = A11yRobotServer_calculateSummary xs"
  "DynamicAnalyzer_calculateSummary xs = A11yRobotServer_calculateSummary xs"
  by (simp_all add: StaticAnalyzer_calculateSummary_def DynamicAnalyzer_calculateSummary_def
      A11yRobotServer_calculateSummary_def foldl_summary_switch)

lemma sampleReport_generated:
  "generateAccessibilityReport ''t2'' sampleResults = Inr sampleReport"
  by (simp add: generateAccessibilityReport_def sampleResults_def sampleReport_def
      StaticAnalyzer_analyze_def DynamicAnalyzer_analyze_def Array_sort_def
      compareSeverity_def severityOrder_def sampleIssue_def Let_def
      A11yRobotServer_calculateSummary_def)

section \<open>Summaries are computed from the issues\<close>

text \<open>
  C1. Every analysis result that the static analysis, the dynamic analysis or the
  report aggregation produces has a summary whose total is the number of its issues and
  whose four severity counts add up to that total.
\<close>

theorem summary_counts_issues:
  assumes "r = StaticAnalyzer_analyze path now fileIssues
           \<or> r = DynamicAnalyzer_analyze u now mainPageIssues pageIssues
           \<or> generateAccessibilityReport now analysisResults = Inr r"
  shows "total (summary r) = length (issues r)
         \<and> critical (summary r) + serious (summary r) + moderate (summary r) + minor (summary r)
             = total (summary r)"
proof -
  have "summary r = A11yRobotServer_calculateSummary (issues r)"
    using assms
    by (auto simp: StaticAnalyzer_analyze_def DynamicAnalyzer_analyze_def
        generateAccessibilityReport_def Let_def loop_summary_eq_filter_summary
        split: if_splits)
  then show ?thesis
    by (simp add: A11yRobotServer_calculateSummary_def severity_partition)
qed

theorem summary_counts_issues_witness:
  "generateAccessibilityReport ''t2'' sampleResults = Inr sampleReport
   \<and> total (summary sampleReport) = length (issues sampleReport)
   \<and> critical (summary sampleReport) + serious (summary sampleReport)
       + moderate (summary sampleReport) + minor (summary sampleReport)
       = total (summary sampleReport)"
proof -
  have h: "sampleReport = StaticAnalyzer_analyze [] ''t2'' []
           \<or> sampleReport = DynamicAnalyzer_analyze [] ''t2'' [] []
           \<or> generateAccessibilityReport ''t2'' sampleResults = Inr sampleReport"
    by (simp add: sampleReport_generated)
  from summary_counts_issues [OF h] sampleReport_generated show ?thesis by simp
qed

section \<open>The report is ranked by severity\<close>

lemma set_sort_insert: "set (sort_insert cmp x ys) = insert x (set ys)"
  by (induction ys) auto

lemma sorted_sort_insert:
  "sorted (map (\<lambda>i. severityOrder (severity i)) ys) \<Longrightarrow>
   sorted (map (\<lambda>i. severityOrder (severity i)) (sort_insert compareSeverity x ys))"
proof (induction ys)
  case Nil
  show ?case by simp
next
  case (Cons y ys)
  show ?case
  proof (cases "compareSeverity x y \<le> 0")
    case True
    with Cons.prems show ?thesis
      by (auto simp: compareSeverity_def)
  next
    case False
    with Cons show ?thesis
      by (auto simp: compareSeverity_def set_sort_insert)
  qed
qed

lemma sorted_Array_sort:
  "sorted (map (\<lambda>i. severityOrder (severity i)) (Array_sort compareSeverity xs))"
  unfolding Array_sort_def by (induction xs) (simp_all add: sorted_sort_insert)

lemma severityOrder_inj: "severityOrder a = severityOrder b \<Longrightarrow> a = b"
  by (cases a; cases b) (simp_all add: severityOrder_def)

lemma filter_sort_insert:
  "filter (\<lambda>i. severity i = s) (sort_insert compareSeverity x ys) =
     (if severity x = s then x # filter (\<lambda>i. severity i = s) ys
      else filter (\<lambda>i. severity i = s) ys)"
proof (induction ys)
  case Nil
  show ?case by simp
next
  case (Cons y ys)
  show ?case
  proof (cases "compareSeverity x y \<le> 0")
    case True
    then show ?thesis by simp
  next
    case False
    then have "severity y \<noteq> severity x"
      by (auto simp: compareSeverity_def)
    with False Cons.IH show ?thesis by auto
  qed
qed

lemma filter_Array_sort:
  "filter (\<lambda>i. severity i = s) (Array_sort compareSeverity xs) = filter (\<lambda>i. severity i = s) xs"
  unfolding Array_sort_def by (induction xs) (simp_all add: filter_sort_insert)

lemma generateAccessibilityReport_issues:
  "generateAccessibilityReport now rs = Inr r \<Longrightarrow>
   issues r = Array_sort compareSeverity (concat (map issues rs))"
  by (auto simp: generateAccessibilityReport_def Let_def split: if_splits)

text \<open>
  C2. The issues of the combined result are the concatenated issues of the prior
  results, sorted by severity rank ascending (critical 0, serious 1, moderate 2,
  minor 3), and the sort is stable: for each severity, the issues of that severity
  stand in the combined result in the order in which they stood before the sort.
\<close>

theorem report_sorted_by_severity_stable:
  assumes "generateAccessibilityReport now analysisResults = Inr r"
  shows "severityOrder Critical = 0 \<and> severityOrder Serious = 1
         \<and> severityOrder Moderate = 2 \<and> severityOrder Minor = 3
         \<and> sorted (map (\<lambda>i. severityOrder (severity i)) (issues r))
         \<and> filter (\<lambda>i. severity i = s) (issues r)
             = filter (\<lambda>i. severity i = s) (concat (map issues analysisResults))"
proof -
  have ranks: "severityOrder Critical = 0" "severityOrder Serious = 1"
    "severityOrder Moderate = 2" "severityOrder Minor = 3"
    by (simp_all add: severityOrder_def)
  from assms have "issues r = Array_sort compareSeverity (concat (map issues analysisResults))"
    by (rule generateAccessibilityReport_issues)
  with ranks show ?thesis
    by (simp only: sorted_Array_sort filter_Array_sort simp_thms)
qed

theorem report_sorted_by_severity_stable_witness:
  "generateAccessibilityReport ''t2'' sampleResults = Inr sampleReport
   \<and> sorted (map (\<lambda>i. severityOrder (severity i)) (issues sampleReport))
   \<and> filter (\<lambda>i. severity i = Minor) (issues sampleReport)
       = filter (\<lambda>i. severity i = Minor) (concat (map issues sampleResults))
   \<and> map id' (filter (\<lambda>i. severity i = Minor) (issues sampleReport)) = [''a'', ''c'', ''f'']"
proof -
  have "map id' (filter (\<lambda>i. severity i = Minor) (issues sampleReport)) = [''a'', ''c'', ''f'']"
    by (simp add: sampleReport_def sampleIssue_def)
  with report_sorted_by_severity_stable [OF sampleReport_generated, of Minor]
    sampleReport_generated
  show ?thesis by simp
qed

text \<open>
  C10. The combined result of a report generation always carries the analysis type
  static, also when the merged results came from the dynamic analysis.
\<close>

theorem report_type_is_static:
  "generateAccessibilityReport now analysisResults = Inr r \<Longrightarrow> analysisType r = Static"
  by (auto simp: generateAccessibilityReport_def Let_def split: if_splits)

theorem report_type_is_static_witness:
  "generateAccessibilityReport ''t2'' sampleResults = Inr sampleReport
   \<and> map analysisType sampleResults = [Static, Dynamic]
   \<and> analysisType sampleReport = Static"
proof -
  have "map analysisType sampleResults = [Static, Dynamic]"
    by (simp add: sampleResults_def StaticAnalyzer_analyze_def DynamicAnalyzer_analyze_def Let_def)
  with report_type_is_static [OF sampleReport_generated] sampleReport_generated
  show ?thesis by simp
qed

text \<open>
  C8, as stated, fails: with no prior analysis result the report generation raises an
  error and builds no result.
\<close>

theorem report_without_results_fails:
  "isl (generateAccessibilityReport ''2024-01-01T00:00:00.000Z'' [])"
  by (simp add: generateAccessibilityReport_def)

text \<open>
  C8, amended. With no prior analysis result the report generation fails with the
  error message shown. With at least one prior result, none of which has an issue, it
  succeeds, and the combined result has no issues and a summary of zeros.
\<close>

theorem report_on_empty_input:
  "generateAccessibilityReport now [] =
     Inl (Error (''Report generation failed: '' @
       ''No analysis results available. Please run static or dynamic analysis first.''))
   \<and> (analysisResults \<noteq> [] \<and> (\<forall>r \<in> set analysisResults. issues r = []) \<longrightarrow>
        (\<exists>r. generateAccessibilityReport now analysisResults = Inr r \<and> issues r = []
             \<and> summary r = \<lparr>total = 0, critical = 0, serious = 0, moderate = 0, minor = 0\<rparr>))"
proof (intro conjI impI)
  show "generateAccessibilityReport now [] =
     Inl (Error (''Report generation failed: '' @
       ''No analysis results available. Please run static or dynamic analysis first.''))"
    by (simp add: generateAccessibilityReport_def)
next
  assume a: "analysisResults \<noteq> [] \<and> (\<forall>r \<in> set analysisResults. issues r = [])"
  then have "concat (map issues analysisResults) = []"
    by (induction analysisResults) simp_all
  then have "Array_sort compareSeverity (concat (map issues analysisResults)) = []"
    by (simp only: Array_sort_def foldr.simps id_apply)
  with a show "\<exists>r. generateAccessibilityReport now analysisResults = Inr r \<and> issues r = []
             \<and> summary r = \<lparr>total = 0, critical = 0, serious = 0, moderate = 0, minor = 0\<rparr>"
    by (simp add: generateAccessibilityReport_def Let_def A11yRobotServer_calculateSummary_def)
qed

theorem report_on_empty_input_witness:
  "[StaticAnalyzer_analyze ''/app'' ''t0'' []] \<noteq> []
   \<and> list_all (\<lambda>r. issues r = []) [StaticAnalyzer_analyze ''/app'' ''t0'' []]
   \<and> (\<exists>r. generateAccessibilityReport ''t1'' [StaticAnalyzer_analyze ''/app'' ''t0'' []] = Inr r
          \<and> issues r = []
          \<and> summary r = \<lparr>total = 0, critical = 0, serious = 0, moderate = 0, minor = 0\<rparr>)"
  using report_on_empty_input [of "''t1''" "[StaticAnalyzer_analyze ''/app'' ''t0'' []]"]
  by (simp add: StaticAnalyzer_analyze_def)

section \<open>The normalizer of the dynamic analysis\<close>

text \<open>
  C7. The mapping from impact to severity is a total function: the four known impact
  values map to themselves and every other value maps to minor.
\<close>

theorem mapAxeSeverity_total:
  "mapAxeSeverity ''critical'' = Critical \<and> mapAxeSeverity ''serious'' = Serious
   \<and> mapAxeSeverity ''moderate'' = Moderate \<and> mapAxeSeverity ''minor'' = Minor
   \<and> (raw \<notin> {''critical'', ''serious'', ''moderate'', ''minor''}
        \<longrightarrow> mapAxeSeverity raw = Minor)"
  by (simp add: mapAxeSeverity_def)

theorem mapAxeSeverity_total_witness:
  "''blocker'' \<notin> {''critical'', ''serious'', ''moderate'', ''minor''}
   \<and> mapAxeSeverity ''blocker'' = Minor"
  using mapAxeSeverity_total [of "''blocker''"] by simp

lemma startsWith_wcag_count: "startsWith t ''wcag'' \<Longrightarrow> t \<noteq> [] \<and> 1 \<le> count_list t CHR ''a''"
proof -
  assume "startsWith t ''wcag''"
  then have "take (length ''wcag'') t = ''wcag''" by (simp only: startsWith_def)
  then have "t = ''wcag'' @ drop (length ''wcag'') t" by (metis append_take_drop_id)
  then obtain r where "t = ''wcag'' @ r" ..
  then show ?thesis by simp
qed

lemma extractWcagInfo_found:
  assumes "find (\<lambda>tag. startsWith tag ''wcag'') tagList = Some t"
  shows "level (extractWcagInfo tagList) =
           (if count_list t CHR ''a'' = 1 then A
            else if count_list t CHR ''a'' = 2 then AA else AAA)"
proof -
  from assms have "startsWith t ''wcag''" by (auto simp: find_Some_iff)
  then have "t \<noteq> []" by (rule startsWith_wcag_count [THEN conjunct1])
  moreover have "length (filter (\<lambda>p. p = CHR ''a'') t) = count_list t CHR ''a''"
    by (induction t) simp_all
  ultimately show ?thesis using assms by (simp add: extractWcagInfo_def Let_def)
qed

lemma extractWcagInfo_level:
  "find (\<lambda>tag. startsWith tag ''wcag'') tagList = Some t \<Longrightarrow>
   count_list t CHR ''a'' = count_list (drop (length ''wcag'') t) CHR ''a'' + 1
   \<and> level (extractWcagInfo tagList) =
       (if count_list (drop (length ''wcag'') t) CHR ''a'' = 0 then A
        else if count_list (drop (length ''wcag'') t) CHR ''a'' = 1 then AA else AAA)"
proof -
  assume f: "find (\<lambda>tag. startsWith tag ''wcag'') tagList = Some t"
  then have "startsWith t ''wcag''" by (auto simp: find_Some_iff)
  then have "take (length ''wcag'') t = ''wcag''" by (simp only: startsWith_def)
  then have "t = ''wcag'' @ drop (length ''wcag'') t" by (metis append_take_drop_id)
  then have "count_list t CHR ''a''
      = count_list (''wcag'' @ drop (length ''wcag'') t) CHR ''a''" by simp
  then have c: "count_list t CHR ''a'' = count_list (drop (length ''wcag'') t) CHR ''a'' + 1"
    by (simp del: append_take_drop_id)
  with extractWcagInfo_found [OF f] show ?thesis by simp
qed

lemma extractWcagInfo_default:
  "\<forall>tag \<in> set tagList. \<not> startsWith tag ''wcag'' \<Longrightarrow>
   extractWcagInfo tagList = \<lparr>level = AA, criterion = ''Unknown''\<rparr>"
proof -
  assume "\<forall>tag \<in> set tagList. \<not> startsWith tag ''wcag''"
  then have "find (\<lambda>tag. startsWith tag ''wcag'') tagList = None" by (simp add: find_None_iff)
  then show ?thesis by (simp add: extractWcagInfo_def)
qed

text \<open>
  C3. The code misses the claim by one. The letters \<open>a\<close> that it counts in the first
  tag starting with \<open>wcag\<close> include the one of the prefix itself. The tag \<open>wcag2a\<close>
  has one level letter after the prefix and the claim gives it level A, but the code
  returns AA; \<open>wcag2aa\<close> has two and the code returns AAA. (Without such a tag the
  code returns AA and \<open>Unknown\<close>, as the claim says.)
\<close>

theorem wcag2a_tag_gives_AA:
  "find (\<lambda>tag. startsWith tag ''wcag'') [''cat.forms'', ''wcag2a''] = Some ''wcag2a''
   \<and> count_list (drop (length ''wcag'') ''wcag2a'') CHR ''a'' = 1
   \<and> level (extractWcagInfo [''cat.forms'', ''wcag2a'']) = AA
   \<and> find (\<lambda>tag. startsWith tag ''wcag'') [''cat.color'', ''wcag2aa''] = Some ''wcag2aa''
   \<and> count_list (drop (length ''wcag'') ''wcag2aa'') CHR ''a'' = 2
   \<and> level (extractWcagInfo [''cat.color'', ''wcag2aa'']) = AAA"
  by (simp add: extractWcagInfo_def startsWith_def)

section \<open>The markup checks\<close>

subsection \<open>Headings selected by the query, and the issues of each check\<close>

lemma toString_digit:
  "toString 0 = ''0''" "toString 1 = ''1''" "toString 2 = ''2''" "toString 3 = ''3''"
  "toString 4 = ''4''" "toString 5 = ''5''" "toString 6 = ''6''" "toString (Suc 0) = ''1''"
  by (simp_all add: toString.simps)

lemma heading_tag_cases:
  assumes "e \<in> set (headings doc)"
  obtains l where "1 \<le> l" "l \<le> 6" "tagName e = ''h'' @ toString l"
    "parseInt (charAt (toLowerCase (tagName e)) 1) = Some l" "toLowerCase (tagName e) = tagName e"
proof -
  from assms have "tagName e \<in> set [''h1'', ''h2'', ''h3'', ''h4'', ''h5'', ''h6'']"
    by (simp add: headings_def select_tags_def)
  then consider "tagName e = ''h1''" | "tagName e = ''h2''" | "tagName e = ''h3''"
    | "tagName e = ''h4''" | "tagName e = ''h5''" | "tagName e = ''h6''"
    by auto
  then show thesis
  proof cases
    case 1
    then show thesis
      by (intro that [of 1]) (simp_all add: toString_digit parseInt_def charAt_def toLowerCase_def lowerChar_def)
  next
    case 2
    then show thesis
      by (intro that [of 2]) (simp_all add: toString_digit parseInt_def charAt_def toLowerCase_def lowerChar_def)
  next
    case 3
    then show thesis
      by (intro that [of 3]) (simp_all add: toString_digit parseInt_def charAt_def toLowerCase_def lowerChar_def)
  next
    case 4
    then show thesis
      by (intro that [of 4]) (simp_all add: toString_digit parseInt_def charAt_def toLowerCase_def lowerChar_def)
  next
    case 5
    then show thesis
      by (intro that [of 5]) (simp_all add: toString_digit parseInt_def charAt_def toLowerCase_def lowerChar_def)
  next
    case 6
    then show thesis
      by (intro that [of 6]) (simp_all add: toString_digit parseInt_def charAt_def toLowerCase_def lowerChar_def)
  qed
qed

lemma heading_level_tag:
  assumes "e \<in> set (headings doc)"
  shows "tagName e = ''h'' @ toString (headingLevel e)"
    and "1 \<le> headingLevel e" and "headingLevel e \<le> 6"
    and "parseInt (charAt (toLowerCase (tagName e)) 1) = Some (headingLevel e)"
  using assms by (rule heading_tag_cases, simp add: headingLevel_def)+

lemma headingLoop_ids:
  "x \<in> set (headingLoop f prev i es) \<Longrightarrow>
   \<exists>j\<ge>i. id' x = ''heading-hierarchy-'' @ toString j"
proof (induction es arbitrary: prev i)
  case Nil
  then show ?case by simp
next
  case (Cons e es)
  let ?c = "parseInt (charAt (toLowerCase (tagName e)) 1)"
  from Cons.prems consider
    (head) "\<exists>t p c. x = headingIssue f i t p c"
    | (tail) "x \<in> set (headingLoop f ?c (i + 1) es)"
    by (auto simp: Let_def split: option.splits if_splits)
  then show ?case
  proof cases
    case head
    then show ?thesis by (auto simp: headingIssue_def)
  next
    case tail
    then obtain j where "i + 1 \<le> j" "id' x = ''heading-hierarchy-'' @ toString j"
      using Cons.IH by blast
    then show ?thesis by (intro exI [of _ j]) simp
  qed
qed

lemma headingLoop_count:
  assumes "\<forall>e \<in> set es. parseInt (charAt (toLowerCase (tagName e)) 1) \<noteq> None"
    and "k < length es"
  shows "length (filter (\<lambda>x. id' x = ''heading-hierarchy-'' @ toString (i + k))
                   (headingLoop f (Some p) i es))
         = (if headingLevel (es ! k) > (if k = 0 then p else headingLevel (es ! (k - 1))) + 1
            then 1 else 0)"
  using assms
proof (induction es arbitrary: p i k)
  case Nil
  then show ?case by simp
next
  case (Cons e es)
  from Cons.prems(1) obtain c where c: "parseInt (charAt (toLowerCase (tagName e)) 1) = Some c"
    by auto
  then have lvl: "headingLevel e = c" by (simp add: headingLevel_def)
  let ?P = "\<lambda>x. id' x = ''heading-hierarchy-'' @ toString (i + k)"
  let ?head = "if c > p + 1 then [headingIssue f i (toLowerCase (tagName e)) p c] else []"
  have unfold: "headingLoop f (Some p) i (e # es) = ?head @ headingLoop f (Some c) (i + 1) es"
    using c by (simp add: Let_def)
  show ?case
  proof (cases k)
    case 0
    have "filter ?P (headingLoop f (Some c) (i + 1) es) = []"
    proof -
      have "\<not> ?P x" if "x \<in> set (headingLoop f (Some c) (i + 1) es)" for x
      proof -
        from headingLoop_ids [OF that] obtain j
          where "i + 1 \<le> j" "id' x = ''heading-hierarchy-'' @ toString j" by blast
        with 0 show ?thesis by simp
      qed
      then show ?thesis by (simp add: filter_empty_conv)
    qed
    with 0 lvl show ?thesis
      unfolding unfold by (simp add: headingIssue_def)
  next
    case (Suc k')
    have "filter ?P ?head = []"
      using Suc by (simp add: headingIssue_def)
    moreover have "length (filter ?P (headingLoop f (Some c) (i + 1) es))
         = (if headingLevel (es ! k') > (if k' = 0 then c else headingLevel (es ! (k' - 1))) + 1
            then 1 else 0)"
      using Cons.IH [where p = c and i = "i + 1" and k = k'] Cons.prems Suc by simp
    ultimately show ?thesis
      unfolding unfold using Suc lvl by (cases k') simp_all
  qed
qed


lemma imageCheck_ids:
  "x \<in> set (imageCheck f doc) \<Longrightarrow>
   (\<exists>j. id' x = ''img-alt-'' @ toString j) \<and> rule x = ''Images must have alt attributes''"
  by (auto simp: imageCheck_def imgIssue_def split: if_splits)

lemma inputLoop_ids:
  "inputLoop engine f doc i cs = Inr xs \<Longrightarrow> x \<in> set xs \<Longrightarrow>
   (\<exists>j. id' x = ''input-label-'' @ toString j) \<and> rule x = ''Form inputs must have labels''"
proof (induction cs arbitrary: i xs)
  case Nil
  then show ?case by simp
next
  case (Cons c cs)
  from Cons.prems(1) obtain labelled later where
    later: "inputLoop engine f doc (i + 1) cs = Inr later"
    and xs: "xs = (if \<not> labelled \<and> \<not> truthy (attr c ''aria-label'')
                      \<and> \<not> truthy (attr c ''aria-labelledby'')
                   then [inputIssue f i (controlType c)] else []) @ later"
    by (auto split: sum.splits)
  from Cons.prems(2) xs consider "x = inputIssue f i (controlType c)" | "x \<in> set later"
    by (auto split: if_splits)
  then show ?case
  proof cases
    case 1
    then show ?thesis by (auto simp: inputIssue_def)
  next
    case 2
    with later show ?thesis by (rule Cons.IH)
  qed
qed

lemma inputCheck_ids:
  "inputCheck engine f doc = Inr xs \<Longrightarrow> x \<in> set xs \<Longrightarrow>
   (\<exists>j. id' x = ''input-label-'' @ toString j) \<and> rule x = ''Form inputs must have labels''"
  unfolding inputCheck_def by (rule inputLoop_ids)

lemma headingLoop_rule:
  "x \<in> set (headingLoop f prev i es) \<Longrightarrow> rule x = ''Heading levels should not be skipped''"
  by (induction es arbitrary: prev i)
    (auto simp: Let_def headingIssue_def split: option.splits if_splits)

lemma image_issues_at:
  "filter (\<lambda>y. id' y = ''img-alt-'' @ toString k)
     (concat (map (\<lambda>(index, img).
                     if attr img ''alt'' = None then [imgIssue f index img] else [])
                  (enumerate n xs)))
   = (if n \<le> k \<and> k < n + length xs
      then (if attr (xs ! (k - n)) ''alt'' = None then [imgIssue f k (xs ! (k - n))] else [])
      else [])"
proof (induction xs arbitrary: n)
  case Nil
  show ?case by simp
next
  case (Cons x xs)
  show ?case
  proof (cases "k = n")
    case True
    with Cons.IH [of "Suc n"] show ?thesis by (simp add: imgIssue_def)
  next
    case False
    then have "k - n = Suc (k - Suc n)" if "n \<le> k" using that by simp
    with False Cons.IH [of "Suc n"] show ?thesis by (auto simp: imgIssue_def)
  qed
qed

lemma filter_none: "(\<And>x. x \<in> set xs \<Longrightarrow> \<not> P x) \<Longrightarrow> filter P xs = []"
  by (simp add: filter_empty_conv)

lemma image_issues_total:
  "length (concat (map (\<lambda>(index, img).
                     if attr img ''alt'' = None then [imgIssue f index img] else [])
                  (enumerate n xs)))
   = length (filter (\<lambda>e. attr e ''alt'' = None) xs)"
  by (induction xs arbitrary: n) simp_all

lemma filter_all: "(\<And>x. x \<in> set xs \<Longrightarrow> P x) \<Longrightarrow> filter P xs = xs"
  by (simp add: filter_id_conv)

lemma headings_three:
  assumes "map tagName (headings doc) = [a, b, c]"
  obtains e1 e2 e3 where "headings doc = [e1, e2, e3]"
    "tagName e1 = a" "tagName e2 = b" "tagName e3 = c"
  using assms by (auto simp: map_eq_Cons_conv)

subsection \<open>When the analysis returns and when it throws\<close>

lemma analyzeHtmlTemplate_Inr:
  assumes "analyzeHtmlTemplate engine doc f = Inr found"
  obtains inputIssues where "inputCheck engine f doc = Inr inputIssues"
    "found = imageCheck f doc @ inputIssues @ headingCheck f doc"
  using assms by (auto simp: analyzeHtmlTemplate_def split: sum.splits)

lemma inputLoop_returns:
  "\<forall>c \<in> set cs. truthy (attr c ''id'') \<longrightarrow>
       CHR 0x22 \<notin> set (the (attr c ''id'')) \<and> CHR 0x5C \<notin> set (the (attr c ''id'')) \<Longrightarrow>
   \<exists>xs. inputLoop engine f doc i cs = Inr xs"
proof (induction cs arbitrary: i)
  case Nil
  show ?case by simp
next
  case (Cons c cs)
  from Cons.prems have "\<exists>b. hasLabel engine doc c = Inr b"
    by (auto simp: hasLabel_def labelQuery_def)
  moreover from Cons.prems have "\<exists>xs. inputLoop engine f doc (i + 1) cs = Inr xs"
    by (intro Cons.IH) simp
  ultimately show ?case by auto
qed

lemma analyzeHtmlTemplate_returns:
  "\<forall>c \<in> set doc. truthy (attr c ''id'') \<longrightarrow>
       CHR 0x22 \<notin> set (the (attr c ''id'')) \<and> CHR 0x5C \<notin> set (the (attr c ''id'')) \<Longrightarrow>
   \<exists>found. analyzeHtmlTemplate engine doc f = Inr found"
proof -
  assume "\<forall>c \<in> set doc. truthy (attr c ''id'') \<longrightarrow>
       CHR 0x22 \<notin> set (the (attr c ''id'')) \<and> CHR 0x5C \<notin> set (the (attr c ''id''))"
  then have "\<forall>c \<in> set (filter isFormControl doc). truthy (attr c ''id'') \<longrightarrow>
       CHR 0x22 \<notin> set (the (attr c ''id'')) \<and> CHR 0x5C \<notin> set (the (attr c ''id''))"
    by simp
  from inputLoop_returns [OF this] obtain xs where "inputCheck engine f doc = Inr xs"
    unfolding inputCheck_def by blast
  then show ?thesis by (simp add: analyzeHtmlTemplate_def)
qed

lemma inputLoop_throws:
  "c \<in> set cs \<Longrightarrow> hasLabel engine doc c = Inl e \<Longrightarrow>
   \<exists>e'. inputLoop engine f doc i cs = Inl e'"
proof (induction cs arbitrary: i)
  case Nil
  then show ?case by simp
next
  case (Cons d cs)
  show ?case
  proof (cases "hasLabel engine doc d")
    case (Inl e')
    then show ?thesis by simp
  next
    case (Inr b)
    with Cons.prems have "c \<in> set cs" by auto
    from Cons.IH [OF this Cons.prems(2)] obtain e' where
      "inputLoop engine f doc (i + 1) cs = Inl e'" by blast
    with Inr show ?thesis by simp
  qed
qed

lemma analyzeHtmlTemplate_throws:
  assumes "c \<in> set doc" "isFormControl c" "attr c ''id'' = Some i" "i \<noteq> []"
    "CHR 0x22 \<in> set i" "CHR 0x5C \<notin> set i" "CHR '']'' \<notin> set i"
  shows "\<exists>e. analyzeHtmlTemplate engine doc f = Inl e"
proof -
  from assms(3-7) have "hasLabel engine doc c = Inl (Error ''Attribute selector didn't terminate'')"
    by (simp add: hasLabel_def labelQuery_def truthy_def)
  moreover from assms(1,2) have "c \<in> set (filter isFormControl doc)" by simp
  ultimately obtain e where "inputCheck engine f doc = Inl e"
    unfolding inputCheck_def using inputLoop_throws by blast
  then show ?thesis by (simp add: analyzeHtmlTemplate_def)
qed

lemma heading_rule_filter:
  assumes "analyzeHtmlTemplate engine doc f = Inr found"
  shows "filter (\<lambda>i. rule i = ''Heading levels should not be skipped'') found
           = headingCheck f doc"
proof -
  let ?R = "\<lambda>i. rule i = ''Heading levels should not be skipped''"
  from assms obtain inputIssues where i: "inputCheck engine f doc = Inr inputIssues"
    and found: "found = imageCheck f doc @ inputIssues @ headingCheck f doc"
    by (rule analyzeHtmlTemplate_Inr)
  have "filter ?R (imageCheck f doc) = []"
    by (rule filter_none) (auto dest: imageCheck_ids)
  moreover have "filter ?R inputIssues = []"
    by (rule filter_none) (auto dest: inputCheck_ids [OF i])
  moreover have "filter ?R (headingCheck f doc) = headingCheck f doc"
    unfolding headingCheck_def by (rule filter_all) (rule headingLoop_rule)
  ultimately show ?thesis by (simp add: found)
qed

lemma sampleDoc_headings:
  "headings sampleDoc =
     [\<lparr>tagName = ''h2'', attribs = []\<rparr>, \<lparr>tagName = ''h4'', attribs = []\<rparr>,
      \<lparr>tagName = ''h5'', attribs = [(''class'', ''sub'')]\<rparr>, \<lparr>tagName = ''h3'', attribs = []\<rparr>]"
  by (simp add: sampleDoc_def headings_def select_tags_def)

lemma sampleDoc_returns:
  "\<exists>found. analyzeHtmlTemplate sampleEngine sampleDoc ''index.html'' = Inr found"
  by (rule analyzeHtmlTemplate_returns) (simp add: sampleDoc_def attr_def truthy_def)

lemma quotedIdControl_throws:
  "tagName quotedIdControl = ''input''"
  "typeIs quotedIdControl ''text''"
  "hasLabel engine doc quotedIdControl = Inl (Error ''Attribute selector didn't terminate'')"
  by (simp_all add: quotedIdControl_def typeIs_def attr_def toLowerCase_def
      lowerChar_def hasLabel_def labelQuery_def truthy_def)

subsection \<open>Heading hierarchy\<close>

text \<open>
  C4, as stated, fails: the first heading is flagged when its level is above 1. A
  document whose only heading is an \<open>h2\<close> gets one heading issue, for that heading.
\<close>

theorem first_heading_flagged:
  "analyzeHtmlTemplate sampleEngine [\<lparr>tagName = ''h2'', attribs = []\<rparr>] ''index.html''
     = Inr [headingIssue ''index.html'' 0 ''h2'' 0 2]"
  by (simp add: analyzeHtmlTemplate_def imageCheck_def inputCheck_def headingCheck_def
      imgs_def headings_def select_tags_def isFormControl_def parseInt_def charAt_def
      toLowerCase_def lowerChar_def)

text \<open>
  C4, amended. For every markup document whose analysis returns its issues: the
  tracked previous level starts at 0, so the first heading in document order is flagged
  exactly when its level exceeds 1; every later heading is flagged exactly when its
  level exceeds the level of the heading just before it plus 1, whether or not that
  heading was flagged. Each flagged heading gives one issue, whose id carries the
  position of the heading among the headings.
\<close>

theorem heading_flagged_iff:
  assumes "analyzeHtmlTemplate engine doc filePath = Inr found"
    and "k < length (headings doc)"
  shows "tagName (headings doc ! k) = ''h'' @ toString (headingLevel (headings doc ! k))
         \<and> 1 \<le> headingLevel (headings doc ! k) \<and> headingLevel (headings doc ! k) \<le> 6
         \<and> length (filter (\<lambda>i. id' i = ''heading-hierarchy-'' @ toString k) found)
             = (if headingLevel (headings doc ! k)
                     > (if k = 0 then 0 else headingLevel (headings doc ! (k - 1))) + 1
                then 1 else 0)"
proof -
  let ?P = "\<lambda>i. id' i = ''heading-hierarchy-'' @ toString k"
  from assms(1) obtain inputIssues where i: "inputCheck engine filePath doc = Inr inputIssues"
    and found: "found = imageCheck filePath doc @ inputIssues @ headingCheck filePath doc"
    by (rule analyzeHtmlTemplate_Inr)
  from assms(2) have "headings doc ! k \<in> set (headings doc)" by simp
  from heading_level_tag(1-3) [OF this]
  have tag: "tagName (headings doc ! k) = ''h'' @ toString (headingLevel (headings doc ! k))
         \<and> 1 \<le> headingLevel (headings doc ! k) \<and> headingLevel (headings doc ! k) \<le> 6"
    by blast
  have "filter ?P (imageCheck filePath doc) = []"
    by (rule filter_none) (auto dest: imageCheck_ids)
  moreover have "filter ?P inputIssues = []"
    by (rule filter_none) (auto dest: inputCheck_ids [OF i])
  moreover have "\<forall>e \<in> set (headings doc). parseInt (charAt (toLowerCase (tagName e)) 1) \<noteq> None"
  proof
    fix e
    assume "e \<in> set (headings doc)"
    from heading_level_tag(4) [OF this]
    show "parseInt (charAt (toLowerCase (tagName e)) 1) \<noteq> None" by simp
  qed
  then have "length (filter ?P (headingCheck filePath doc))
             = (if headingLevel (headings doc ! k)
                     > (if k = 0 then 0 else headingLevel (headings doc ! (k - 1))) + 1
                then 1 else 0)"
    unfolding headingCheck_def
    using headingLoop_count [where i = 0 and k = k and p = 0] assms(2)
    by simp
  ultimately show ?thesis using tag by (simp add: found)
qed

theorem heading_flagged_iff_witness:
  "length (headings sampleDoc) = 4
   \<and> map headingLevel (headings sampleDoc) = [2, 4, 5, 3]
   \<and> (\<exists>found. analyzeHtmlTemplate sampleEngine sampleDoc ''index.html'' = Inr found
        \<and> length (filter (\<lambda>i. id' i = ''heading-hierarchy-'' @ toString 0) found) = 1
        \<and> length (filter (\<lambda>i. id' i = ''heading-hierarchy-'' @ toString 1) found) = 1
        \<and> length (filter (\<lambda>i. id' i = ''heading-hierarchy-'' @ toString 2) found) = 0
        \<and> length (filter (\<lambda>i. id' i = ''heading-hierarchy-'' @ toString 3) found) = 0)"
proof -
  have lv: "map headingLevel (headings sampleDoc) = [2, 4, 5, 3]"
    by (simp add: sampleDoc_headings headingLevel_def parseInt_def charAt_def toLowerCase_def
        lowerChar_def)
  have len: "length (headings sampleDoc) = 4" by (simp add: sampleDoc_headings)
  have l: "headingLevel (headings sampleDoc ! 0) = 2" "headingLevel (headings sampleDoc ! Suc 0) = 4"
    "headingLevel (headings sampleDoc ! 2) = 5" "headingLevel (headings sampleDoc ! 3) = 3"
    by (simp_all add: sampleDoc_headings headingLevel_def parseInt_def charAt_def toLowerCase_def
        lowerChar_def)
  have k: "0 < length (headings sampleDoc)" "1 < length (headings sampleDoc)"
    "2 < length (headings sampleDoc)" "3 < length (headings sampleDoc)"
    by (simp_all add: len)
  from sampleDoc_returns obtain found
    where f: "analyzeHtmlTemplate sampleEngine sampleDoc ''index.html'' = Inr found" ..
  from heading_flagged_iff [OF f k(1)] heading_flagged_iff [OF f k(2)]
    heading_flagged_iff [OF f k(3)] heading_flagged_iff [OF f k(4)]
  have "length (filter (\<lambda>i. id' i = ''heading-hierarchy-'' @ toString 0) found) = 1
        \<and> length (filter (\<lambda>i. id' i = ''heading-hierarchy-'' @ toString 1) found) = 1
        \<and> length (filter (\<lambda>i. id' i = ''heading-hierarchy-'' @ toString 2) found) = 0
        \<and> length (filter (\<lambda>i. id' i = ''heading-hierarchy-'' @ toString 3) found) = 0"
    by (simp add: l)
  with f lv len show ?thesis by blast
qed

text \<open>
  On the documents whose analysis returns, the two heading sequences of C5 give the
  issues that the claim names.
\<close>

lemma heading_sequences_returned:
  assumes "analyzeHtmlTemplate engine doc filePath = Inr found"
  shows "(map tagName (headings doc) = [''h1'', ''h2'', ''h4''] \<longrightarrow>
            filter (\<lambda>i. rule i = ''Heading levels should not be skipped'') found
            = [headingIssue filePath 2 ''h4'' 2 4])
         \<and> (map tagName (headings doc) = [''h1'', ''h3'', ''h5''] \<longrightarrow>
            filter (\<lambda>i. rule i = ''Heading levels should not be skipped'') found
            = [headingIssue filePath 1 ''h3'' 1 3, headingIssue filePath 2 ''h5'' 3 5])"
proof (intro conjI impI)
  assume "map tagName (headings doc) = [''h1'', ''h2'', ''h4'']"
  then obtain e1 e2 e3 where "headings doc = [e1, e2, e3]"
    "tagName e1 = ''h1''" "tagName e2 = ''h2''" "tagName e3 = ''h4''"
    by (rule headings_three)
  then have "headingCheck filePath doc = [headingIssue filePath 2 ''h4'' 2 4]"
    by (simp add: headingCheck_def parseInt_def charAt_def toLowerCase_def lowerChar_def
        numeral_2_eq_2 [symmetric])
  then show "filter (\<lambda>i. rule i = ''Heading levels should not be skipped'') found
        = [headingIssue filePath 2 ''h4'' 2 4]"
    by (simp only: heading_rule_filter [OF assms])
next
  assume "map tagName (headings doc) = [''h1'', ''h3'', ''h5'']"
  then obtain e1 e2 e3 where "headings doc = [e1, e2, e3]"
    "tagName e1 = ''h1''" "tagName e2 = ''h3''" "tagName e3 = ''h5''"
    by (rule headings_three)
  then have "headingCheck filePath doc
      = [headingIssue filePath 1 ''h3'' 1 3, headingIssue filePath 2 ''h5'' 3 5]"
    by (simp add: headingCheck_def parseInt_def charAt_def toLowerCase_def lowerChar_def
        numeral_2_eq_2 [symmetric])
  then show "filter (\<lambda>i. rule i = ''Heading levels should not be skipped'') found
      = [headingIssue filePath 1 ''h3'' 1 3, headingIssue filePath 2 ''h5'' 3 5]"
    by (simp only: heading_rule_filter [OF assms])
qed

text \<open>
  C5. The code misses the claim on a document whose headings are h1, h2, h4 and which
  also holds a form control with a double quote in its id: the label query throws in
  the control check, the heading loop is not reached, and the function throws instead
  of giving the one heading issue.
\<close>

theorem heading_issue_lost_by_quoted_id:
  "map tagName (headings doc124QuotedId) = [''h1'', ''h2'', ''h4'']
   \<and> analyzeHtmlTemplate sampleEngine doc124QuotedId ''index.html''
       = Inl (Error ''Attribute selector didn't terminate'')"
  by (simp add: doc124QuotedId_def headings_def select_tags_def analyzeHtmlTemplate_def
      inputCheck_def quotedIdControl_throws isFormControl_def)

subsection \<open>Images\<close>

text \<open>
  On the documents whose analysis returns, the image at position k among the images
  gets exactly one issue when it has no \<open>alt\<close> attribute, with severity serious,
  criterion 1.1.1 and level A, and no issue when the attribute is present, also with
  an empty value; the image issues are as many as the images without the attribute.
\<close>

lemma image_issues_returned:
  assumes "analyzeHtmlTemplate engine doc filePath = Inr found"
    and "k < length (imgs doc)"
  shows "filter (\<lambda>i. id' i = ''img-alt-'' @ toString k) found
           = (if attr (imgs doc ! k) ''alt'' = None
              then [imgIssue filePath k (imgs doc ! k)] else [])
         \<and> severity (imgIssue filePath k (imgs doc ! k)) = Serious
         \<and> wcagCriterion (imgIssue filePath k (imgs doc ! k)) = ''1.1.1''
         \<and> wcagLevel (imgIssue filePath k (imgs doc ! k)) = A
         \<and> length (filter (\<lambda>i. rule i = ''Images must have alt attributes'') found)
             = length (filter (\<lambda>e. attr e ''alt'' = None) (imgs doc))"
proof -
  let ?P = "\<lambda>i. id' i = ''img-alt-'' @ toString k"
  let ?R = "\<lambda>i. rule i = ''Images must have alt attributes''"
  from assms(1) obtain inputIssues where i: "inputCheck engine filePath doc = Inr inputIssues"
    and found: "found = imageCheck filePath doc @ inputIssues @ headingCheck filePath doc"
    by (rule analyzeHtmlTemplate_Inr)
  have "filter ?P inputIssues = []"
    by (rule filter_none) (auto dest: inputCheck_ids [OF i])
  moreover have "filter ?P (headingCheck filePath doc) = []"
    unfolding headingCheck_def by (rule filter_none) (auto dest: headingLoop_ids)
  moreover have "filter ?P (imageCheck filePath doc)
      = (if attr (imgs doc ! k) ''alt'' = None then [imgIssue filePath k (imgs doc ! k)] else [])"
    unfolding imageCheck_def using assms(2) image_issues_at [of k filePath 0 "imgs doc"] by simp
  ultimately have one: "filter ?P found
      = (if attr (imgs doc ! k) ''alt'' = None then [imgIssue filePath k (imgs doc ! k)] else [])"
    by (simp add: found)
  have "filter ?R inputIssues = []"
    by (rule filter_none) (auto dest: inputCheck_ids [OF i])
  moreover have "filter ?R (headingCheck filePath doc) = []"
    unfolding headingCheck_def by (rule filter_none) (auto dest: headingLoop_rule)
  moreover have "filter ?R (imageCheck filePath doc) = imageCheck filePath doc"
    by (rule filter_all) (simp add: imageCheck_ids)
  ultimately have "filter ?R found = imageCheck filePath doc"
    by (simp add: found)
  then have total: "length (filter ?R found)
      = length (filter (\<lambda>e. attr e ''alt'' = None) (imgs doc))"
    by (simp add: imageCheck_def image_issues_total)
  have "severity (imgIssue filePath k (imgs doc ! k)) = Serious"
    "wcagCriterion (imgIssue filePath k (imgs doc ! k)) = ''1.1.1''"
    "wcagLevel (imgIssue filePath k (imgs doc ! k)) = A"
    by (simp_all add: imgIssue_def)
  with one total show ?thesis by (simp only: simp_thms)
qed

text \<open>
  C6. The code misses the claim on a document with an image without \<open>alt\<close> followed
  by a form control with a double quote in its id: the image issue is pushed, then the
  label query throws in the control check and the function throws, so the image gets
  no issue.
\<close>

theorem image_issue_lost_by_quoted_id:
  "imgs docImageThenQuotedId = [\<lparr>tagName = ''img'', attribs = [(''src'', ''logo.png'')]\<rparr>]
   \<and> attr (imgs docImageThenQuotedId ! 0) ''alt'' = None
   \<and> analyzeHtmlTemplate sampleEngine docImageThenQuotedId ''index.html''
       = Inl (Error ''Attribute selector didn't terminate'')"
  by (simp add: docImageThenQuotedId_def imgs_def select_tags_def attr_def
      analyzeHtmlTemplate_def inputCheck_def quotedIdControl_throws isFormControl_def)

section \<open>The stylesheet check\<close>

lemma matchOutlineNone_startsWith: "matchOutlineNone s = Some r \<Longrightarrow> startsWith s ''outline''"
  by (simp add: matchOutlineNone_def split: if_splits)

lemma scan_includes_outline: "scanOutlineNone k s \<noteq> [] \<Longrightarrow> includes' s ''outline''"
proof (induction k s rule: scanOutlineNone.induct)
  case (1 skip)
  then show ?case by simp
next
  case (2 skip c cs)
  then show ?case by simp
next
  case (3 c cs)
  show ?case
  proof (cases "matchOutlineNone (c # cs)")
    case None
    with 3 show ?thesis by simp
  next
    case (Some r)
    then have "startsWith (c # cs) ''outline''" by (rule matchOutlineNone_startsWith)
    then show ?thesis by simp
  qed
qed

text \<open>
  C9, as stated, fails: a stylesheet with two occurrences of \<open>outline: none\<close> and no
  focus selector gets one issue, not one for each occurrence.
\<close>

theorem outline_issue_per_occurrence_fails:
  "length (scanOutlineNone 0 ''a{outline:none} b{outline: none}'') = 2
   \<and> \<not> hasFocusStyles ''a{outline:none} b{outline: none}''
   \<and> length (analyzeCssFile ''a{outline:none} b{outline: none}'' ''styles.css'') = 1"
  by code_simp

text \<open>
  C9, amended. A stylesheet gets exactly one outline issue, however many occurrences
  it has, when it has at least one match of \<open>outline\s*:\s*none\<close> and contains none of
  \<open>:focus\<close>, \<open>:focus-visible\<close>, \<open>:focus-within\<close>; it gets no issue otherwise, so none
  when one of those selectors appears anywhere in the file.
\<close>

theorem outline_issue_once_per_file:
  "analyzeCssFile content filePath =
     (if hasFocusStyles content \<or> scanOutlineNone 0 content = [] then []
      else [outlineIssue filePath])
   \<and> hasFocusStyles content =
       (includes' content '':focus'' \<or> includes' content '':focus-visible''
        \<or> includes' content '':focus-within'')"
proof -
  have "includes' content ''outline''" if "scanOutlineNone 0 content \<noteq> []"
    using that by (rule scan_includes_outline)
  then have "analyzeCssFile content filePath =
     (if hasFocusStyles content \<or> scanOutlineNone 0 content = [] then []
      else [outlineIssue filePath])"
    by (auto simp: analyzeCssFile_def outlineNoneMatches_def split: list.splits)
  moreover have "hasFocusStyles content =
       (includes' content '':focus'' \<or> includes' content '':focus-visible''
        \<or> includes' content '':focus-within'')"
    by (simp add: hasFocusStyles_def focusSelectors_def)
  ultimately show ?thesis by (simp only: simp_thms)
qed

theorem outline_issue_once_per_file_witness:
  "analyzeCssFile ''a{outline:none} b{outline: none}'' ''styles.css'' = [outlineIssue ''styles.css'']
   \<and> analyzeCssFile ''a{outline:none} a:focus-visible{outline: 2px solid}'' ''styles.css'' = []
   \<and> analyzeCssFile ''a{outline: 0}'' ''styles.css'' = []"
proof -
  have "\<not> hasFocusStyles ''a{outline:none} b{outline: none}''"
    "scanOutlineNone 0 ''a{outline:none} b{outline: none}'' \<noteq> []"
    "hasFocusStyles ''a{outline:none} a:focus-visible{outline: 2px solid}''"
    "scanOutlineNone 0 ''a{outline: 0}'' = []"
    by code_simp+
  with outline_issue_once_per_file [of "''a{outline:none} b{outline: none}''" "''styles.css''"]
    outline_issue_once_per_file [of "''a{outline:none} a:focus-visible{outline: 2px solid}''" "''styles.css''"]
    outline_issue_once_per_file [of "''a{outline: 0}''" "''styles.css''"]
  show ?thesis by (simp only: simp_thms if_True if_False)
qed

end
